theory Spec2Isabelle
  imports Main
begin

section \<open>JavaScript strings\<close>

text \<open>
  A string is a list of code units; the model reads a \<^typ>\<open>char\<close> as a code unit below 256.
  \<open>String.prototype.trim\<close> and the regular expression class \<open>\s\<close> remove or match the same
  characters (white space and line terminators); below 256 these are TAB, LF, VT, FF, CR,
  SPACE and NBSP. The regular expression atom \<open>.\<close> (no \<open>s\<close> flag) matches every character
  but a line terminator; below 256 these are LF and CR.
\<close>

definition is_ws :: "char \<Rightarrow> bool" where
  "is_ws c = (c = CHR 0x09 \<or> c = CHR 0x0A \<or> c = CHR 0x0B \<or> c = CHR 0x0C \<or> c = CHR 0x0D
     \<or> c = CHR 0x20 \<or> c = CHR 0xA0)"

definition is_line_terminator :: "char \<Rightarrow> bool" where
  "is_line_terminator c = (c = CHR 0x0A \<or> c = CHR 0x0D)"

text \<open>\<open>s.trim()\<close>\<close>

definition trim :: "string \<Rightarrow> string" where
  "trim s = rev (dropWhile is_ws (rev (dropWhile is_ws s)))"

text \<open>
  \<open>s.split(sep)\<close> for a non-empty string separator: the string is scanned from the left, every
  occurrence of \<open>sep\<close> found at the scanning position closes the current piece and the scan
  resumes after the occurrence. The result always has at least one piece. The source splits
  on \<open>"\n"\<close> and on \<open>"---"\<close> only; the empty separator (which splits into code units in
  JavaScript) is not called and is left as the unsplit string here.
\<close>

fun cons_hd :: "'a \<Rightarrow> 'a list list \<Rightarrow> 'a list list" where
  "cons_hd c [] = [[c]]"
| "cons_hd c (p # ps) = (c # p) # ps"

function split_on :: "string \<Rightarrow> string \<Rightarrow> string list" where
  "split_on sep [] = [[]]"
| "split_on sep (c # cs) =
     (if sep \<noteq> [] \<and> take (length sep) (c # cs) = sep
      then [] # split_on sep (drop (length sep) (c # cs))
      else cons_hd c (split_on sep cs))"
  by pat_completeness auto
termination
  by (relation "measure (\<lambda>(sep, s). length s)") auto

text \<open>\<open>pieces.join(sep)\<close>\<close>

fun join :: "string \<Rightarrow> string list \<Rightarrow> string" where
  "join sep [] = []"
| "join sep [p] = p"
| "join sep (p # q # ps) = p @ sep @ join sep (q # ps)"

abbreviation newline :: string where
  "newline \<equiv> [CHR 0x0A]"

section \<open>The regular expressions of parseSearchResults\<close>

text \<open>
  All six field patterns and the heading pattern end in \<open>\s*(.+)$\<close>, matched against the rest of
  a line. The greedy \<open>\s*\<close> first takes the whole run of leading white space and gives
  characters back one at a time while \<open>(.+)$\<close> fails; \<open>(.+)$\<close> succeeds on a non-empty rest that
  has no line terminator, and captures it.
\<close>

definition dot_plus_end :: "string \<Rightarrow> string option" where
  "dot_plus_end s = (if s \<noteq> [] \<and> list_all (\<lambda>c. \<not> is_line_terminator c) s then Some s else None)"

fun ws_backtrack :: "nat \<Rightarrow> string \<Rightarrow> string option" where
  "ws_backtrack 0 s = dot_plus_end s"
| "ws_backtrack (Suc k) s =
     (case dot_plus_end (drop (Suc k) s) of
        Some g \<Rightarrow> Some g
      | None \<Rightarrow> ws_backtrack k s)"

definition ws_then_rest :: "string \<Rightarrow> string option" where
  "ws_then_rest s = ws_backtrack (length (takeWhile is_ws s)) s"

text \<open>\<open>line.match(/^##\s*(.+)$/)\<close>: the captured group, or \<open>None\<close> for \<open>null\<close>.\<close>

definition match_title :: "string \<Rightarrow> string option" where
  "match_title line = (if take 2 line = ''##'' then ws_then_rest (drop 2 line) else None)"

text \<open>
  \<open>line.match(/^-\s*LABEL\s*(.+)$/)\<close> for \<open>LABEL\<close> one of \<open>URL:\<close>, \<open>Repository:\<close>, \<open>Type:\<close>, \<open>State:\<close>,
  \<open>Author:\<close>, \<open>Created at:\<close>. Every label starts with a letter, so the first \<open>\s*\<close> can only
  succeed taking the whole run of white space after the hyphen.
\<close>

definition match_field :: "string \<Rightarrow> string \<Rightarrow> string option" where
  "match_field label line =
     (case line of
        [] \<Rightarrow> None
      | c # r \<Rightarrow>
          if c = CHR ''-'' then
            (let r' = dropWhile is_ws r in
             if take (length label) r' = label then ws_then_rest (drop (length label) r')
             else None)
          else None)"

section \<open>parseSearchResults\<close>

record SearchResult =
  title :: string
  url :: string
  repository :: string
  type :: string
  state :: string
  author :: string
  created_at :: string

text \<open>The body of the inner loop over \<open>lines.slice(1)\<close>: six matches, six conditional updates.\<close>

definition field_line :: "SearchResult \<Rightarrow> string \<Rightarrow> SearchResult" where
  "field_line r line =
     (let urlMatch = match_field ''URL:'' line;
          repoMatch = match_field ''Repository:'' line;
          typeMatch = match_field ''Type:'' line;
          stateMatch = match_field ''State:'' line;
          authorMatch = match_field ''Author:'' line;
          createdMatch = match_field ''Created at:'' line;
          r1 = (case urlMatch of Some v \<Rightarrow> r\<lparr>url := v\<rparr> | None \<Rightarrow> r);
          r2 = (case repoMatch of Some v \<Rightarrow> r1\<lparr>repository := v\<rparr> | None \<Rightarrow> r1);
          r3 = (case typeMatch of Some v \<Rightarrow> r2\<lparr>type := v\<rparr> | None \<Rightarrow> r2);
          r4 = (case stateMatch of Some v \<Rightarrow> r3\<lparr>state := v\<rparr> | None \<Rightarrow> r3);
          r5 = (case authorMatch of Some v \<Rightarrow> r4\<lparr>author := v\<rparr> | None \<Rightarrow> r4)
      in (case createdMatch of Some v \<Rightarrow> r5\<lparr>created_at := v\<rparr> | None \<Rightarrow> r5))"

fun field_lines :: "SearchResult \<Rightarrow> string list \<Rightarrow> SearchResult" where
  "field_lines r [] = r"
| "field_lines r (line # rest) = field_lines (field_line r line) rest"

text \<open>
  One iteration of the loop over the sections: \<open>None\<close> where the source does \<open>continue\<close> or
  skips the \<open>push\<close>, \<open>Some r\<close> where it pushes \<open>r\<close>.
\<close>

definition parse_section :: "string \<Rightarrow> SearchResult option" where
  "parse_section section_text =
     (let lines = split_on newline (trim section_text) in
      if length lines < 2 then None
      else
        (case match_title (hd lines) of
           None \<Rightarrow> None
         | Some t \<Rightarrow>
             (let r = field_lines
                        \<lparr>title = t, url = [], repository = [], type = ''issue'',
                         state = ''open'', author = [], created_at = []\<rparr>
                        (tl lines)
              in if url r \<noteq> [] \<and> title r \<noteq> [] then Some r else None)))"

fun collect_results :: "SearchResult list \<Rightarrow> string list \<Rightarrow> SearchResult list" where
  "collect_results results [] = results"
| "collect_results results (s # ss) =
     (case parse_section s of
        None \<Rightarrow> collect_results results ss
      | Some r \<Rightarrow> collect_results (results @ [r]) ss)"

text \<open>\<open>content.split("---").filter((section) => section.trim())\<close>\<close>

definition sections :: "string \<Rightarrow> string list" where
  "sections content = filter (\<lambda>s. trim s \<noteq> []) (split_on ''---'' content)"

definition parseSearchResults :: "string \<Rightarrow> SearchResult list" where
  "parseSearchResults content = take 20 (collect_results [] (sections content))"

section \<open>Decoded JSON values\<close>

text \<open>
  \<open>JSON.parse\<close> belongs to the JavaScript engine, not to this program: it is a parameter
  \<open>JSON_parse\<close> of the functions below, \<open>None\<close> where it throws a \<open>SyntaxError\<close>. Its results are
  values of the type \<open>json\<close>; \<open>JUndefined\<close> is what reading an absent property gives
  (no text decodes to it). Numbers are the integer-valued ones: the source compares
  numbers with 1 and 2 and tests them for zero only, so a number with a fraction behaves
  like any integer other than 0, 1 and 2. An object is the list of its members, each key
  once.
\<close>

datatype json =
    JUndefined
  | JNull
  | JBool bool
  | JNum int
  | JStr string
  | JArr "json list"
  | JObj "(string \<times> json) list"

text \<open>The truth value of \<open>v\<close> in a condition, in \<open>v && w\<close> and in \<open>v || w\<close>.\<close>

fun truthy :: "json \<Rightarrow> bool" where
  "truthy JUndefined = False"
| "truthy JNull = False"
| "truthy (JBool b) = b"
| "truthy (JNum n) = (n \<noteq> 0)"
| "truthy (JStr s) = (s \<noteq> [])"
| "truthy (JArr xs) = True"
| "truthy (JObj kvs) = True"

text \<open>Reading a property of \<open>null\<close> or \<open>undefined\<close> throws a \<open>TypeError\<close>.\<close>

fun nullish :: "json \<Rightarrow> bool" where
  "nullish JUndefined = True"
| "nullish JNull = True"
| "nullish v = False"

text \<open>
  \<open>v.k\<close> for a value that is not nullish and \<open>k\<close> one of \<open>id\<close>, \<open>result\<close>, \<open>error\<close>, \<open>message\<close>,
  \<open>content\<close>, \<open>text\<close>: the member of an object, \<open>undefined\<close> on every other value.
\<close>

fun member :: "string \<Rightarrow> json \<Rightarrow> json" where
  "member k (JObj kvs) = (case map_of kvs k of Some v \<Rightarrow> v | None \<Rightarrow> JUndefined)"
| "member k v = JUndefined"

text \<open>\<open>v[0]\<close> for a value that is not nullish.\<close>

fun index0 :: "json \<Rightarrow> json" where
  "index0 (JArr (x # xs)) = x"
| "index0 (JStr (c # cs)) = JStr [c]"
| "index0 (JObj kvs) = member ''0'' (JObj kvs)"
| "index0 v = JUndefined"

text \<open>
  Whether \<open>`${v}`\<close> yields a string. A template literal converts its value to a string: a
  decoded object goes through its \<open>toString\<close>, which is the one of \<open>Object.prototype\<close> unless
  the object has a member of that name; a member is never callable, so the conversion then
  throws a \<open>TypeError\<close>. An array joins the conversions of its elements.
\<close>

fun stringifiable :: "json \<Rightarrow> bool" where
  "stringifiable (JObj kvs) = (map_of kvs ''toString'' = None)"
| "stringifiable (JArr xs) = list_all stringifiable xs"
| "stringifiable v = True"

section \<open>parseMCPResponse\<close>

datatype js_error =
    SyntaxError
  | TypeError
  | McpServerError json

text \<open>How the body of a \<open>try\<close> block ends.\<close>

datatype 'a completion =
    Returns 'a
  | Throws js_error
  | Falls_through

text \<open>
  The body of the \<open>try\<close> block of parseMCPResponse, for one line. \<open>parseSearchResults\<close> is
  called with whatever \<open>response.result.content[0]?.text || ""\<close> is; on a value that is not a
  string, \<open>content.split\<close> is not a function and the call throws a \<open>TypeError\<close>.
  \<open>McpServerError m\<close> is the \<open>Error\<close> with message \<open>MCP server error: \<close> followed by \<open>m\<close>; where
  \<open>m\<close> has no conversion to a string, building that message throws a \<open>TypeError\<close> instead.
\<close>

definition try_line :: "(string \<Rightarrow> json option) \<Rightarrow> string \<Rightarrow> SearchResult list completion" where
  "try_line JSON_parse line =
     (case JSON_parse line of
        None \<Rightarrow> Throws SyntaxError
      | Some response \<Rightarrow>
          if nullish response then Throws TypeError
          else
            (let result = member ''result'' response in
             if truthy result \<and> truthy (member ''content'' result) then
               (let c0 = index0 (member ''content'' result);
                    text = (if nullish c0 then JUndefined else member ''text'' c0);
                    content = (if truthy text then text else JStr [])
                in (case content of
                      JStr c \<Rightarrow> Returns (parseSearchResults c)
                    | _ \<Rightarrow> Throws TypeError))
             else if truthy (member ''error'' response) then
               (let m = member ''message'' (member ''error'' response);
                    shown = (if truthy m then m else JStr ''Unknown error'')
                in if stringifiable shown then Throws (McpServerError shown)
                   else Throws TypeError)
             else Falls_through))"

text \<open>
  The loop over the lines: the \<open>catch\<close> block is empty, so a line whose body throws is
  passed over like a line whose body falls through; after the last line, \<open>return []\<close>.
\<close>

fun response_lines :: "(string \<Rightarrow> json option) \<Rightarrow> string list \<Rightarrow> SearchResult list" where
  "response_lines JSON_parse [] = []"
| "response_lines JSON_parse (line # rest) =
     (case try_line JSON_parse line of
        Returns results \<Rightarrow> results
      | Throws e \<Rightarrow> response_lines JSON_parse rest
      | Falls_through \<Rightarrow> response_lines JSON_parse rest)"

text \<open>
  \<open>Inl e\<close> would be an exception leaving parseMCPResponse, which both callers catch. Every
  statement that can throw stands inside the loop's own \<open>try\<close>, so the function always
  returns.
\<close>

definition parseMCPResponse :: "(string \<Rightarrow> json option) \<Rightarrow> string \<Rightarrow> js_error + SearchResult list" where
  "parseMCPResponse JSON_parse responseData =
     Inr (response_lines JSON_parse (filter (\<lambda>line. trim line \<noteq> []) (split_on newline responseData)))"

section \<open>callMCPSearch: one session\<close>

text \<open>What is written to the standard input of the process, one constructor per message.\<close>

datatype stdin_message =
    InitializeRequest
  | InitializedNotification
  | SearchRequest string

text \<open>
  The reasons of \<open>reject\<close>, one constructor per message template of the source:
  \<open>TimedOut\<close> is \<open>MCP request timed out\<close>; \<open>ParseFailed e\<close> is \<open>Failed to parse MCP response: \<close>
  with the message of \<open>e\<close>; \<open>McpError m\<close> is \<open>MCP error: \<close> with \<open>m\<close>; \<open>ProcessExited code err\<close>
  is \<open>MCP server exited with code \<close> \<open>code\<close>\<open>: \<close> \<open>err\<close> (followed by the home directory and the
  executable of the preferences); \<open>ExecutableNotFound\<close>, \<open>StartFailed\<close> and \<open>SendFailed\<close> are the
  messages of the \<open>error\<close> handler and of the failed first write.
\<close>

datatype failure =
    TimedOut
  | ParseFailed js_error
  | McpError json
  | ProcessExited "int option" string
  | ExecutableNotFound
  | StartFailed string
  | SendFailed string

datatype settlement =
    Resolved "SearchResult list"
  | Rejected failure

text \<open>
  The variables the callbacks of one call share, and the effects they have on the outside:
  \<open>timer_pending\<close> holds while \<open>responseTimeout\<close> has neither fired nor been cleared,
  \<open>stdin_written\<close> lists the writes to the process, \<open>kills\<close> counts the calls of
  \<open>mcpProcess.kill()\<close>, \<open>settlements\<close> lists the calls of \<open>resolve\<close> and \<open>reject\<close> in order.
  The promise takes the first of them as its outcome and ignores the later ones.
\<close>

record session =
  responseData :: string
  errorData :: string
  hasReceivedResponse :: bool
  isInitialized :: bool
  timer_pending :: bool
  stdin_written :: "stdin_message list"
  kills :: nat
  settlements :: "settlement list"

definition kill :: "session \<Rightarrow> session" where
  "kill s = s\<lparr>kills := Suc (kills s)\<rparr>"

definition clearTimeout :: "session \<Rightarrow> session" where
  "clearTimeout s = s\<lparr>timer_pending := False\<rparr>"

definition resolve :: "SearchResult list \<Rightarrow> session \<Rightarrow> session" where
  "resolve results s = s\<lparr>settlements := settlements s @ [Resolved results]\<rparr>"

definition reject :: "failure \<Rightarrow> session \<Rightarrow> session" where
  "reject f s = s\<lparr>settlements := settlements s @ [Rejected f]\<rparr>"

definition outcome :: "session \<Rightarrow> settlement option" where
  "outcome s = (case settlements s of [] \<Rightarrow> None | x # xs \<Rightarrow> Some x)"

text \<open>
  The first three statements of the stdout handler: append the chunk, split on the newline,
  keep the last piece (\<open>lines.pop() || ""\<close>) as the new buffer. The result is the list of
  lines handed to the loop and the new buffer.
\<close>

definition frame :: "string \<Rightarrow> string \<Rightarrow> string list \<times> string" where
  "frame buffer output =
     (let lines = split_on newline (buffer @ output)
      in (butlast lines, last lines))"

text \<open>How one iteration of the loop over the lines ends: \<open>continue\<close> (or its end) or \<open>return\<close>.\<close>

datatype flow = Continue | Return

text \<open>
  One iteration of the loop over the lines of a chunk. An exception of \<open>JSON.parse\<close> or of
  \<open>message.id\<close> on \<open>null\<close> is caught by the outer \<open>catch\<close>, which logs and goes on. So is
  the \<open>TypeError\<close> of the template literal in the error branch, where the message of the
  error has no conversion to a string: it is thrown while the argument of \<open>reject\<close> is
  built, after \<open>clearTimeout\<close> and \<open>kill\<close> have run and before \<open>reject\<close> is called.
\<close>

definition on_line ::
    "(string \<Rightarrow> json option) \<Rightarrow> string \<Rightarrow> session \<Rightarrow> string \<Rightarrow> session \<times> flow" where
  "on_line JSON_parse query s line =
     (if trim line = [] then (s, Continue)
      else
        (case JSON_parse line of
           None \<Rightarrow> (s, Continue)
         | Some message \<Rightarrow>
             if nullish message then (s, Continue)
             else if member ''id'' message = JNum 1 \<and> truthy (member ''result'' message)
                     \<and> \<not> isInitialized s then
               (s\<lparr>isInitialized := True,
                  stdin_written := stdin_written s @ [InitializedNotification, SearchRequest query]\<rparr>,
                Continue)
             else if member ''id'' message = JNum 2 \<and> truthy (member ''result'' message) then
               (let s1 = clearTimeout (s\<lparr>hasReceivedResponse := True\<rparr>)
                in (case parseMCPResponse JSON_parse line of
                      Inr results \<Rightarrow> (resolve results (kill s1), Return)
                    | Inl e \<Rightarrow> (reject (ParseFailed e) (kill s1), Return)))
             else if truthy (member ''error'' message) then
               (let m = member ''message'' (member ''error'' message);
                    shown = (if truthy m then m else JStr ''Unknown error'');
                    s1 = kill (clearTimeout s)
                in if stringifiable shown then (reject (McpError shown) s1, Return)
                   else (s1, Continue))
             else (s, Continue)))"

fun on_lines ::
    "(string \<Rightarrow> json option) \<Rightarrow> string \<Rightarrow> session \<Rightarrow> string list \<Rightarrow> session" where
  "on_lines JSON_parse query s [] = s"
| "on_lines JSON_parse query s (line # rest) =
     (case on_line JSON_parse query s line of
        (s', Return) \<Rightarrow> s'
      | (s', Continue) \<Rightarrow> on_lines JSON_parse query s' rest)"

text \<open>What the process and the timer can deliver to the callbacks.\<close>

datatype event =
    StdoutData string
  | StderrData string
  | ProcessError "string option" string
  | Close "int option"
  | TimerFires

definition on_stdout :: "(string \<Rightarrow> json option) \<Rightarrow> string \<Rightarrow> string \<Rightarrow> session \<Rightarrow> session" where
  "on_stdout JSON_parse query output s =
     (case frame (responseData s) output of
        (lines, buffer) \<Rightarrow> on_lines JSON_parse query (s\<lparr>responseData := buffer\<rparr>) lines)"

definition on_stderr :: "string \<Rightarrow> session \<Rightarrow> session" where
  "on_stderr error s = s\<lparr>errorData := errorData s @ error\<rparr>"

text \<open>The \<open>error\<close> handler; the first argument is \<open>error.code\<close>, the second \<open>error.message\<close>.\<close>

definition on_error :: "string option \<Rightarrow> string \<Rightarrow> session \<Rightarrow> session" where
  "on_error code msg s =
     (let s1 = clearTimeout s
      in if code = Some ''ENOENT'' then reject ExecutableNotFound s1
         else reject (StartFailed msg) s1)"

text \<open>
  The callback of \<open>setTimeout\<close>. The runtime calls it at most once, and never after
  \<open>clearTimeout\<close>.
\<close>

definition on_timeout :: "session \<Rightarrow> session" where
  "on_timeout s =
     (if timer_pending s then
        (let s1 = s\<lparr>timer_pending := False\<rparr>
         in if \<not> hasReceivedResponse s1 then reject TimedOut (kill s1) else s1)
      else s)"

text \<open>The \<open>close\<close> handler; the exit code is \<open>None\<close> for \<open>null\<close> (the process ended by a signal).\<close>

definition on_close :: "(string \<Rightarrow> json option) \<Rightarrow> int option \<Rightarrow> session \<Rightarrow> session" where
  "on_close JSON_parse code s =
     (let s1 = clearTimeout s
      in if \<not> hasReceivedResponse s1 then
           (if code \<noteq> Some 0 then reject (ProcessExited code (errorData s1)) s1
            else
              (case parseMCPResponse JSON_parse (responseData s1) of
                 Inr results \<Rightarrow> resolve results s1
               | Inl e \<Rightarrow> reject (ParseFailed e) s1))
         else s1)"

fun step :: "(string \<Rightarrow> json option) \<Rightarrow> string \<Rightarrow> session \<Rightarrow> event \<Rightarrow> session" where
  "step JSON_parse query s (StdoutData output) = on_stdout JSON_parse query output s"
| "step JSON_parse query s (StderrData error) = on_stderr error s"
| "step JSON_parse query s (ProcessError code msg) = on_error code msg s"
| "step JSON_parse query s (Close code) = on_close JSON_parse code s"
| "step JSON_parse query s TimerFires = on_timeout s"

text \<open>
  The synchronous part of the promise executor: the variables are initialised, the timer is
  armed and the initialize request is written. The argument is \<open>Some msg\<close> when that write
  throws an error with message \<open>msg\<close>.
\<close>

definition spawn :: "string option \<Rightarrow> session" where
  "spawn write_error =
     (let s0 = \<lparr>responseData = [], errorData = [], hasReceivedResponse = False,
                isInitialized = False, timer_pending = True, stdin_written = [],
                kills = 0, settlements = []\<rparr>
      in (case write_error of
            None \<Rightarrow> s0\<lparr>stdin_written := [InitializeRequest]\<rparr>
          | Some msg \<Rightarrow> reject (SendFailed msg) (clearTimeout s0)))"

definition run :: "(string \<Rightarrow> json option) \<Rightarrow> string \<Rightarrow> event list \<Rightarrow> session \<Rightarrow> session" where
  "run JSON_parse query events s = foldl (step JSON_parse query) s events"

text \<open>
  The outcome of the promise of \<open>callMCPSearch(query)\<close> after the given events, \<open>None\<close> while it
  is pending. A blank query resolves to the empty list and starts no session.
\<close>

definition callMCPSearch ::
    "(string \<Rightarrow> json option) \<Rightarrow> string \<Rightarrow> string option \<Rightarrow> event list \<Rightarrow> settlement option" where
  "callMCPSearch JSON_parse query write_error events =
     (if trim query = [] then Some (Resolved [])
      else outcome (run JSON_parse query events (spawn write_error)))"

section \<open>Notions the properties are stated with\<close>

text \<open>
  The stream of the standard output and of the standard error as the events deliver it,
  and the complete lines of the standard output: all pieces of the stream but the last.
\<close>

definition stdout_chunks :: "event list \<Rightarrow> string list" where
  "stdout_chunks events =
     List.map_filter (\<lambda>e. case e of StdoutData output \<Rightarrow> Some output | _ \<Rightarrow> None) events"

definition stderr_chunks :: "event list \<Rightarrow> string list" where
  "stderr_chunks events =
     List.map_filter (\<lambda>e. case e of StderrData error \<Rightarrow> Some error | _ \<Rightarrow> None) events"

definition observed_lines :: "event list \<Rightarrow> string list" where
  "observed_lines events = butlast (split_on newline (concat (stdout_chunks events)))"

text \<open>The framing step over a sequence of chunks: the lines of all steps, and the last buffer.\<close>

fun frame_all :: "string \<Rightarrow> string list \<Rightarrow> string list \<times> string" where
  "frame_all buffer [] = ([], buffer)"
| "frame_all buffer (output # rest) =
     (case frame buffer output of
        (lines, buffer') \<Rightarrow>
          (case frame_all buffer' rest of
             (lines', buffer'') \<Rightarrow> (lines @ lines', buffer'')))"

text \<open>
  A line that decodes to a message with \<open>id === 1\<close> and a truthy \<open>result\<close>, and a line that
  decodes to a response the handler settles on: \<open>id === 2\<close> with a truthy \<open>result\<close>, or a truthy
  \<open>error\<close>.
\<close>

definition is_init_result :: "(string \<Rightarrow> json option) \<Rightarrow> string \<Rightarrow> bool" where
  "is_init_result JSON_parse line =
     (trim line \<noteq> [] \<and>
      (case JSON_parse line of
         None \<Rightarrow> False
       | Some message \<Rightarrow>
           \<not> nullish message \<and> member ''id'' message = JNum 1
           \<and> truthy (member ''result'' message)))"

definition is_response :: "(string \<Rightarrow> json option) \<Rightarrow> string \<Rightarrow> bool" where
  "is_response JSON_parse line =
     (trim line \<noteq> [] \<and>
      (case JSON_parse line of
         None \<Rightarrow> False
       | Some message \<Rightarrow>
           \<not> nullish message \<and>
           ((member ''id'' message = JNum 2 \<and> truthy (member ''result'' message))
            \<or> truthy (member ''error'' message))))"




text \<open>
  The record of a block as the specification words it: the title of the heading line, and
  for every field the value of the last line that carries its label, or the default.
\<close>

fun field_value :: "string \<Rightarrow> string list \<Rightarrow> string option" where
  "field_value label [] = None"
| "field_value label (line # rest) =
     (case field_value label rest of
        Some v \<Rightarrow> Some v
      | None \<Rightarrow> match_field label line)"

definition field_or :: "string \<Rightarrow> string \<Rightarrow> string list \<Rightarrow> string" where
  "field_or d label lines = (case field_value label lines of Some v \<Rightarrow> v | None \<Rightarrow> d)"

definition is_field_line :: "string \<Rightarrow> bool" where
  "is_field_line line =
     (\<not> (match_field ''URL:'' line = None \<and> match_field ''Repository:'' line = None
         \<and> match_field ''Type:'' line = None \<and> match_field ''State:'' line = None
         \<and> match_field ''Author:'' line = None \<and> match_field ''Created at:'' line = None))"

definition block_record :: "string \<Rightarrow> SearchResult option" where
  "block_record block =
     (let lines = split_on newline (trim block) in
      case (match_title (hd lines), field_value ''URL:'' (tl lines)) of
        (Some t, Some u) \<Rightarrow>
          Some \<lparr>title = t, url = u,
                repository = field_or [] ''Repository:'' (tl lines),
                type = field_or ''issue'' ''Type:'' (tl lines),
                state = field_or ''open'' ''State:'' (tl lines),
                author = field_or [] ''Author:'' (tl lines),
                created_at = field_or [] ''Created at:'' (tl lines)\<rparr>
      | _ \<Rightarrow> None)"

section \<open>Transcripts\<close>

text \<open>
  Lines a server can write, each with the value \<open>JSON.parse\<close> gives for it. \<open>transcript_parse\<close>
  is \<open>JSON.parse\<close> on these lines, the only ones it is applied to in the transcripts below.
\<close>

definition initialize_response_line :: string where
  \<open>initialize_response_line =
     ''{"jsonrpc":"2.0","id":1,"result":{"protocolVersion":"2025-06-18"}}''\<close>

definition initialize_response :: json where
  "initialize_response =
     JObj [(''jsonrpc'', JStr ''2.0''), (''id'', JNum 1),
           (''result'', JObj [(''protocolVersion'', JStr ''2025-06-18'')])]"

definition search_response_line :: string where
  \<open>search_response_line =
     ''{"jsonrpc":"2.0","id":2,"result":{"content":[{"type":"text","text":"## Fix crash''
     @ [CHR 0x5C, CHR ''n''] @ ''- URL: https://github.com/org/repo/issues/1"}]}}''\<close>

definition search_response :: json where
  "search_response =
     JObj [(''jsonrpc'', JStr ''2.0''), (''id'', JNum 2),
           (''result'', JObj [(''content'', JArr [JObj [(''type'', JStr ''text''),
              (''text'', JStr (''## Fix crash'' @ newline
                 @ ''- URL: https://github.com/org/repo/issues/1''))]])])]"

definition plain_response_line :: string where
  \<open>plain_response_line =
     ''{"jsonrpc":"2.0","id":2,"result":{"content":[{"type":"text","text":"search failed: index is locked"}],"isError":true}}''\<close>

definition plain_response :: json where
  "plain_response =
     JObj [(''jsonrpc'', JStr ''2.0''), (''id'', JNum 2),
           (''result'', JObj [(''content'', JArr [JObj [(''type'', JStr ''text''),
              (''text'', JStr ''search failed: index is locked'')]]),
              (''isError'', JBool True)])]"

definition transcript_parse :: "string \<Rightarrow> json option" where
  "transcript_parse =
     map_of [(initialize_response_line, initialize_response),
             (search_response_line, search_response),
             (plain_response_line, plain_response)]"

definition crash_record :: SearchResult where
  "crash_record =
     \<lparr>title = ''Fix crash'', url = ''https://github.com/org/repo/issues/1'', repository = [],
      type = ''issue'', state = ''open'', author = [], created_at = []\<rparr>"


text \<open>The payload of the specification's example: two blocks, the second without three fields.\<close>

definition example_payload :: string where
  "example_payload =
     ''## Fix crash on startup'' @ newline
     @ ''- URL: https://github.com/org/repo/issues/1'' @ newline
     @ ''- Repository: org/repo'' @ newline
     @ ''- Type: issue'' @ newline
     @ ''- State: open'' @ newline
     @ ''- Author: alice'' @ newline
     @ ''- Created at: 2024-01-01'' @ newline
     @ ''---'' @ newline
     @ ''## Add dark mode'' @ newline
     @ ''- URL: https://github.com/org/repo/pull/2'' @ newline
     @ ''- Type: pull_request'' @ newline
     @ ''- State: merged''"

text \<open>A payload of 21 blocks that are all accepted; the last differs from the others.\<close>

definition capped_block :: string where
  "capped_block = ''## A'' @ newline @ ''- URL: a'' @ newline @ ''---'' @ newline"

definition cap_payload :: string where
  "cap_payload = concat (replicate 20 capped_block) @ ''## Z'' @ newline @ ''- URL: z''"

definition last_record :: SearchResult where
  "last_record =
     \<lparr>title = ''Z'', url = ''z'', repository = [], type = ''issue'', state = ''open'',
      author = [], created_at = []\<rparr>"

text \<open>
  An error response whose message is an object with a member \<open>toString\<close>, with the value
  \<open>JSON.parse\<close> gives for it; \<open>opaque_error_parse\<close> is \<open>JSON.parse\<close> on this line.
\<close>

definition opaque_error_line :: string where
  \<open>opaque_error_line =
     ''{"jsonrpc":"2.0","id":2,"error":{"code":1,"message":{"toString":1}}}''\<close>

definition opaque_error :: json where
  "opaque_error =
     JObj [(''jsonrpc'', JStr ''2.0''), (''id'', JNum 2),
           (''error'', JObj [(''code'', JNum 1),
              (''message'', JObj [(''toString'', JNum 1)])])]"

definition opaque_error_parse :: "string \<Rightarrow> json option" where
  "opaque_error_parse = map_of [(opaque_error_line, opaque_error)]"

text \<open>Invariants of a session.\<close>

definition handshake_ok :: "string \<Rightarrow> stdin_message list \<Rightarrow> session \<Rightarrow> bool" where
  "handshake_ok query base s =
     (stdin_written s =
        base @ (if isInitialized s then [InitializedNotification, SearchRequest query] else []))"

definition timer_inv :: "session \<Rightarrow> bool" where
  "timer_inv s =
     ((\<not> timer_pending s \<or> (settlements s = [] \<and> kills s = 0))
      \<and> (\<not> hasReceivedResponse s \<or> settlements s \<noteq> []))"

definition timed_out :: "session \<Rightarrow> bool" where
  "timed_out s = (\<not> timer_pending s \<and> kills s = 1 \<and> outcome s = Some (Rejected TimedOut))"

section \<open>Splitting and joining\<close>

lemma split_on_nonempty [simp]: "split_on sep s \<noteq> []"
  by (induction sep s rule: split_on.induct) (auto split: list.splits elim: cons_hd.elims)

lemma cons_hd_nonempty [simp]: "cons_hd c ps \<noteq> []"
  by (cases ps) auto

lemma join_cons_hd: "ps \<noteq> [] \<Longrightarrow> join sep (cons_hd c ps) = c # join sep ps"
  by (cases ps; cases "tl ps") auto

lemma join_Nil_cons: "ps \<noteq> [] \<Longrightarrow> join sep ([] # ps) = sep @ join sep ps"
  by (cases ps) auto

lemma join_split_on: "join sep (split_on sep s) = s"
proof (induction sep s rule: split_on.induct)
  case (1 sep)
  show ?case by simp
next
  case (2 sep c cs)
  show ?case
  proof (cases "sep \<noteq> [] \<and> take (length sep) (c # cs) = sep")
    case True
    then have "join sep (split_on sep (c # cs)) = sep @ drop (length sep) (c # cs)"
      using 2(1) by (simp add: join_Nil_cons)
    also have "\<dots> = take (length sep) (c # cs) @ drop (length sep) (c # cs)"
      using True by simp
    finally show ?thesis by (simp only: append_take_drop_id)
  next
    case False
    then have "split_on sep (c # cs) = cons_hd c (split_on sep cs)" by auto
    then show ?thesis using 2(2)[OF False] by (simp add: join_cons_hd)
  qed
qed



text \<open>Splitting on one character commutes with appending: only the last piece is open.\<close>

lemma split_on_char_append:
  "split_on [x] (xs @ ys) = butlast (split_on [x] xs) @ split_on [x] (last (split_on [x] xs) @ ys)"
proof (induction xs)
  case Nil
  show ?case by simp
next
  case (Cons c xs)
  obtain p ps where ps: "split_on [x] xs = p # ps"
    by (cases "split_on [x] xs") auto
  show ?case
  proof (cases "c = x")
    case True
    then show ?thesis using Cons by simp
  next
    case False
    show ?thesis
    proof (cases ps)
      case Nil
      then show ?thesis using Cons False ps by simp
    next
      case (Cons q qs)
      then show ?thesis using Cons.IH False ps by simp
    qed
  qed
qed

lemma split_on_char_last: "split_on [x] (last (split_on [x] s)) = [last (split_on [x] s)]"
proof (induction s)
  case Nil
  show ?case by simp
next
  case (Cons c s)
  obtain p ps where ps: "split_on [x] s = p # ps"
    by (cases "split_on [x] s") auto
  show ?case
  proof (cases "c = x")
    case True
    then show ?thesis using Cons by simp
  next
    case False
    then show ?thesis using Cons ps by (cases ps) auto
  qed
qed

lemma split_on_char_none: "x \<notin> set s \<Longrightarrow> split_on [x] s = [s]"
  by (induction s) auto

lemma last_split_on_char_append:
  "last (split_on [x] (xs @ ys)) = last (split_on [x] (last (split_on [x] xs) @ ys))"
proof -
  have "split_on [x] (last (split_on [x] xs) @ ys) \<noteq> []" by simp
  then show ?thesis
    using split_on_char_append[of x xs ys] by (simp only: last_append if_False)
qed

lemma butlast_split_on_char_append:
  "butlast (split_on [x] (xs @ ys)) =
     butlast (split_on [x] xs) @ butlast (split_on [x] (last (split_on [x] xs) @ ys))"
proof -
  have "split_on [x] (last (split_on [x] xs) @ ys) \<noteq> []" by simp
  then show ?thesis
    using split_on_char_append[of x xs ys] by (simp only: butlast_append if_False)
qed

lemma frame_all_split:
  "split_on newline buffer = [buffer] \<Longrightarrow>
   fst (frame_all buffer chunks) @ [snd (frame_all buffer chunks)]
     = split_on newline (buffer @ concat chunks)"
proof (induction chunks arbitrary: buffer)
  case Nil
  then show ?case by simp
next
  case (Cons c chunks)
  let ?b = "last (split_on newline (buffer @ c))"
  have "fst (frame_all ?b chunks) @ [snd (frame_all ?b chunks)]
      = split_on newline (?b @ concat chunks)"
    by (rule Cons.IH) (rule split_on_char_last)
  then have "fst (frame_all buffer (c # chunks)) @ [snd (frame_all buffer (c # chunks))]
      = butlast (split_on newline (buffer @ c)) @ split_on newline (?b @ concat chunks)"
    by (simp add: frame_def Let_def case_prod_beta)
  also have "\<dots> = split_on newline ((buffer @ c) @ concat chunks)"
    by (rule split_on_char_append[symmetric])
  finally show ?case by simp
qed

section \<open>The record of a block\<close>

lemma ws_backtrack_found: "dot_plus_end (drop k s) = Some g \<Longrightarrow> ws_backtrack k s = Some g"
  by (cases k) simp_all

lemma ws_backtrack_sound:
  "ws_backtrack k s = Some v \<Longrightarrow>
     \<exists>j\<le>k. v = drop j s \<and> v \<noteq> [] \<and> list_all (\<lambda>c. \<not> is_line_terminator c) v"
proof (induction k)
  case 0
  then show ?case by (auto simp: dot_plus_end_def split: if_splits)
next
  case (Suc k)
  show ?case
  proof (cases "dot_plus_end (drop (Suc k) s)")
    case None
    then have "ws_backtrack k s = Some v" using Suc.prems by simp
    from Suc.IH[OF this] show ?thesis by (auto intro: le_SucI)
  next
    case (Some g)
    then have "v = drop (Suc k) s \<and> v \<noteq> [] \<and> list_all (\<lambda>c. \<not> is_line_terminator c) v"
      using Suc.prems by (auto simp: dot_plus_end_def split: if_splits)
    then show ?thesis by blast
  qed
qed

lemma ws_then_rest_sound:
  assumes "ws_then_rest s = Some v"
  shows "\<exists>ws. s = ws @ v \<and> list_all is_ws ws \<and> v \<noteq> []
           \<and> list_all (\<lambda>c. \<not> is_line_terminator c) v"
proof -
  obtain j where j: "j \<le> length (takeWhile is_ws s)" and v: "v = drop j s" "v \<noteq> []"
      "list_all (\<lambda>c. \<not> is_line_terminator c) v"
    using ws_backtrack_sound[of "length (takeWhile is_ws s)" s v] assms
    by (auto simp: ws_then_rest_def)
  have "take j s = take j (takeWhile is_ws s @ dropWhile is_ws s)" by simp
  also have "\<dots> = take j (takeWhile is_ws s)" using j by (simp del: takeWhile_dropWhile_id)
  finally have t: "take j s = take j (takeWhile is_ws s)" .
  have "list_all is_ws (take j (takeWhile is_ws s))"
    by (auto simp: list_all_iff dest: in_set_takeD set_takeWhileD)
  then have "list_all is_ws (take j s)" by (simp only: t)
  moreover have "s = take j s @ v" using v(1) by simp
  ultimately show ?thesis using v(2,3) by blast
qed

lemma ws_then_rest_complete:
  assumes "list_all is_ws ws" and "v \<noteq> []" and "\<not> is_ws (hd v)"
    and "list_all (\<lambda>c. \<not> is_line_terminator c) v"
  shows "ws_then_rest (ws @ v) = Some v"
proof -
  obtain a v' where av: "v = a # v'" using assms(2) by (cases v) auto
  have "takeWhile is_ws (ws @ v) = ws"
    using assms(1,3) av by (simp add: list_all_iff takeWhile_append2)
  moreover have "dot_plus_end (drop (length ws) (ws @ v)) = Some v"
    using assms(2,4) by (simp add: dot_plus_end_def)
  ultimately show ?thesis by (simp add: ws_then_rest_def ws_backtrack_found)
qed

lemma match_title_sound:
  assumes "match_title line = Some t"
  shows "\<exists>ws. line = ''##'' @ ws @ t \<and> list_all is_ws ws \<and> t \<noteq> []
           \<and> list_all (\<lambda>c. \<not> is_line_terminator c) t"
proof -
  have p: "take 2 line = ''##''" and r: "ws_then_rest (drop 2 line) = Some t"
    using assms by (auto simp: match_title_def split: if_splits)
  obtain ws where ws: "drop 2 line = ws @ t" "list_all is_ws ws" "t \<noteq> []"
      "list_all (\<lambda>c. \<not> is_line_terminator c) t"
    using ws_then_rest_sound[OF r] by blast
  have "line = take 2 line @ drop 2 line" by simp
  then have "line = ''##'' @ ws @ t" by (simp only: p ws(1))
  then show ?thesis using ws(2,3,4) by blast
qed

lemma match_title_complete:
  assumes "list_all is_ws ws" and "t \<noteq> []" and "\<not> is_ws (hd t)"
    and "list_all (\<lambda>c. \<not> is_line_terminator c) t"
  shows "match_title (''##'' @ ws @ t) = Some t"
  using ws_then_rest_complete[OF assms] by (simp add: match_title_def)

lemma match_field_sound:
  assumes "match_field label line = Some v"
  shows "\<exists>ws ws'. line = CHR ''-'' # ws @ label @ ws' @ v \<and> list_all is_ws ws
           \<and> list_all is_ws ws' \<and> v \<noteq> [] \<and> list_all (\<lambda>c. \<not> is_line_terminator c) v"
proof -
  obtain r where line: "line = CHR ''-'' # r"
    using assms by (cases line) (auto simp: match_field_def split: if_splits)
  let ?r = "dropWhile is_ws r"
  have p: "take (length label) ?r = label"
    and w: "ws_then_rest (drop (length label) ?r) = Some v"
    using assms line by (auto simp: match_field_def Let_def split: if_splits)
  obtain ws' where ws': "drop (length label) ?r = ws' @ v" "list_all is_ws ws'" "v \<noteq> []"
      "list_all (\<lambda>c. \<not> is_line_terminator c) v"
    using ws_then_rest_sound[OF w] by blast
  have "?r = take (length label) ?r @ drop (length label) ?r" by simp
  then have r': "?r = label @ ws' @ v" by (simp only: p ws'(1))
  have "r = takeWhile is_ws r @ ?r" by simp
  then have "line = CHR ''-'' # takeWhile is_ws r @ label @ ws' @ v"
    using line r' by simp
  moreover have "list_all is_ws (takeWhile is_ws r)"
    by (auto simp: list_all_iff dest: set_takeWhileD)
  ultimately show ?thesis using ws'(2,3,4) by blast
qed

lemma match_field_complete:
  assumes "list_all is_ws ws" and "label \<noteq> []" and "\<not> is_ws (hd label)"
    and "list_all is_ws ws'" and "v \<noteq> []" and "\<not> is_ws (hd v)"
    and "list_all (\<lambda>c. \<not> is_line_terminator c) v"
  shows "match_field label (CHR ''-'' # ws @ label @ ws' @ v) = Some v"
proof -
  obtain a l where al: "label = a # l" using assms(2) by (cases label) auto
  have "dropWhile is_ws (ws @ label @ ws' @ v) = label @ ws' @ v"
    using assms(1,3) al by (simp add: list_all_iff dropWhile_append2)
  then show ?thesis
    using ws_then_rest_complete[OF assms(4,5,6,7)] by (simp add: match_field_def)
qed

lemma ws_backtrack_nonempty: "ws_backtrack k s \<noteq> Some []"
  by (induction k) (auto simp: dot_plus_end_def split: option.splits if_splits)

lemma match_title_nonempty: "match_title line \<noteq> Some []"
  by (simp add: match_title_def ws_then_rest_def ws_backtrack_nonempty)

lemma match_field_nonempty: "match_field label line \<noteq> Some []"
  by (simp add: match_field_def ws_then_rest_def ws_backtrack_nonempty Let_def split: list.splits)

lemma field_value_nonempty: "field_value label lines \<noteq> Some []"
  by (induction lines) (auto simp: match_field_nonempty split: option.splits)

lemma field_line_eq:
  "field_line r line =
     \<lparr>title = title r,
      url = (case match_field ''URL:'' line of Some v \<Rightarrow> v | None \<Rightarrow> url r),
      repository = (case match_field ''Repository:'' line of Some v \<Rightarrow> v | None \<Rightarrow> repository r),
      type = (case match_field ''Type:'' line of Some v \<Rightarrow> v | None \<Rightarrow> type r),
      state = (case match_field ''State:'' line of Some v \<Rightarrow> v | None \<Rightarrow> state r),
      author = (case match_field ''Author:'' line of Some v \<Rightarrow> v | None \<Rightarrow> author r),
      created_at = (case match_field ''Created at:'' line of Some v \<Rightarrow> v | None \<Rightarrow> created_at r)\<rparr>"
  by (cases r) (simp add: field_line_def Let_def split: option.splits)

lemma field_lines_eq:
  "field_lines r lines =
     \<lparr>title = title r,
      url = field_or (url r) ''URL:'' lines,
      repository = field_or (repository r) ''Repository:'' lines,
      type = field_or (type r) ''Type:'' lines,
      state = field_or (state r) ''State:'' lines,
      author = field_or (author r) ''Author:'' lines,
      created_at = field_or (created_at r) ''Created at:'' lines\<rparr>"
proof (induction lines arbitrary: r)
  case Nil
  show ?case by (cases r) (simp add: field_or_def)
next
  case (Cons line lines)
  show ?case
    unfolding field_lines.simps Cons.IH[of "field_line r line"]
    by (simp add: field_line_eq field_or_def split: option.splits)
qed

lemma field_line_ignored: "\<not> is_field_line line \<Longrightarrow> field_line r line = r"
  by (cases r) (simp add: field_line_eq is_field_line_def)

lemma field_lines_filter: "field_lines r (filter is_field_line lines) = field_lines r lines"
  by (induction lines arbitrary: r) (simp_all add: field_line_ignored)

lemma parse_section_eq: "parse_section block = block_record block"
proof -
  let ?ls = "split_on newline (trim block)"
  show ?thesis
  proof (cases "match_title (hd ?ls)")
    case None
    then show ?thesis by (simp add: parse_section_def block_record_def Let_def)
  next
    case (Some t)
    have t: "t \<noteq> []" using Some match_title_nonempty[of "hd ?ls"] by auto
    show ?thesis
    proof (cases "field_value ''URL:'' (tl ?ls)")
      case None
      then show ?thesis using Some
        by (auto simp add: parse_section_def block_record_def Let_def field_lines_eq field_or_def)
    next
      case (Some u)
      then have u: "u \<noteq> []" using field_value_nonempty[of "''URL:''" "tl ?ls"] by auto
      have "tl ?ls \<noteq> []" using Some by auto
      then have "\<not> length ?ls < 2" by (cases ?ls) auto
      then show ?thesis using Some \<open>match_title (hd ?ls) = Some t\<close> t u
        by (simp add: parse_section_def block_record_def Let_def field_lines_eq field_or_def)
    qed
  qed
qed

lemma collect_results_map_filter:
  "collect_results acc ss = acc @ List.map_filter parse_section ss"
  by (induction ss arbitrary: acc) (auto simp: List.map_filter_simps split: option.splits)

lemma example_payload_records:
  "parseSearchResults example_payload =
     [\<lparr>title = ''Fix crash on startup'', url = ''https://github.com/org/repo/issues/1'',
       repository = ''org/repo'', type = ''issue'', state = ''open'', author = ''alice'',
       created_at = ''2024-01-01''\<rparr>,
      \<lparr>title = ''Add dark mode'', url = ''https://github.com/org/repo/pull/2'',
       repository = [], type = ''pull_request'', state = ''merged'', author = [],
       created_at = []\<rparr>]"
  by code_simp

section \<open>Sessions\<close>

lemma run_snoc: "run P q (evs @ [e]) s = step P q (run P q evs s) e"
  by (simp add: run_def)

lemma run_Nil: "run P q [] s = s"
  by (simp add: run_def)

lemma parseMCPResponse_returns: "parseMCPResponse P d \<noteq> Inl e"
  by (simp add: parseMCPResponse_def)

lemma spawn_buffers: "responseData (spawn w) = [] \<and> errorData (spawn w) = []"
  by (cases w) (simp_all add: spawn_def Let_def reject_def clearTimeout_def)


lemma spawn_stdin: "stdin_written (spawn w) = (case w of None \<Rightarrow> [InitializeRequest] | Some msg \<Rightarrow> [])"
  by (cases w) (simp_all add: spawn_def Let_def reject_def clearTimeout_def)

subsection \<open>The buffers\<close>

lemma on_line_buffers:
  "responseData (fst (on_line P q s l)) = responseData s
   \<and> errorData (fst (on_line P q s l)) = errorData s"
  by (simp add: on_line_def Let_def kill_def clearTimeout_def resolve_def reject_def
      parseMCPResponse_def split: option.splits)

lemma on_lines_buffers:
  "responseData (on_lines P q s ls) = responseData s
   \<and> errorData (on_lines P q s ls) = errorData s"
proof (induction ls arbitrary: s)
  case Nil
  show ?case by simp
next
  case (Cons l ls)
  obtain s' f where sf: "on_line P q s l = (s', f)" by (cases "on_line P q s l")
  have b: "responseData s' = responseData s \<and> errorData s' = errorData s"
    using on_line_buffers[of P q s l] sf by simp
  show ?case using sf b Cons.IH[of s'] by (cases f) simp_all
qed

lemma stdout_chunks_snoc:
  "stdout_chunks (evs @ [e]) = stdout_chunks evs @ (case e of StdoutData c \<Rightarrow> [c] | _ \<Rightarrow> [])"
  by (cases e) (simp_all add: stdout_chunks_def List.map_filter_def)

lemma stderr_chunks_snoc:
  "stderr_chunks (evs @ [e]) = stderr_chunks evs @ (case e of StderrData c \<Rightarrow> [c] | _ \<Rightarrow> [])"
  by (cases e) (simp_all add: stderr_chunks_def List.map_filter_def)

lemma step_responseData:
  "responseData (step P q s e) =
     (case e of
        StdoutData c \<Rightarrow> last (split_on newline (responseData s @ c))
      | _ \<Rightarrow> responseData s)"
  by (cases e)
     (simp_all add: on_stdout_def frame_def Let_def on_lines_buffers on_stderr_def on_error_def
        on_close_def on_timeout_def clearTimeout_def reject_def resolve_def kill_def
        parseMCPResponse_def)

lemma step_errorData:
  "errorData (step P q s e) = (case e of StderrData c \<Rightarrow> errorData s @ c | _ \<Rightarrow> errorData s)"
  by (cases e)
     (simp_all add: on_stdout_def frame_def Let_def on_lines_buffers on_stderr_def on_error_def
        on_close_def on_timeout_def clearTimeout_def reject_def resolve_def kill_def
        parseMCPResponse_def)

lemma responseData_run:
  "responseData (run P q evs (spawn w)) = last (split_on newline (concat (stdout_chunks evs)))"
proof (induction evs rule: rev_induct)
  case Nil
  show ?case by (simp add: run_Nil spawn_buffers stdout_chunks_def List.map_filter_def)
next
  case (snoc e evs)
  show ?case
  proof (cases e)
    case (StdoutData c)
    have "responseData (run P q (evs @ [e]) (spawn w))
        = last (split_on newline (last (split_on newline (concat (stdout_chunks evs))) @ c))"
      using StdoutData by (simp add: run_snoc step_responseData snoc.IH del: step.simps)
    also have "\<dots> = last (split_on newline (concat (stdout_chunks evs) @ c))"
      by (rule last_split_on_char_append[symmetric])
    finally show ?thesis using StdoutData by (simp add: stdout_chunks_snoc)
  qed (simp_all add: run_snoc step_responseData snoc.IH stdout_chunks_snoc del: step.simps)
qed

lemma errorData_run: "errorData (run P q evs (spawn w)) = concat (stderr_chunks evs)"
proof (induction evs rule: rev_induct)
  case Nil
  show ?case by (simp add: run_Nil spawn_buffers stderr_chunks_def List.map_filter_def)
next
  case (snoc e evs)
  show ?case
    by (cases e) (simp_all add: run_snoc step_errorData snoc.IH stderr_chunks_snoc del: step.simps)
qed

lemma observed_lines_snoc:
  "observed_lines (evs @ [e]) =
     observed_lines evs @
     (case e of
        StdoutData c \<Rightarrow> fst (frame (responseData (run P q evs (spawn w))) c)
      | _ \<Rightarrow> [])"
proof (cases e)
  case (StdoutData c)
  show ?thesis
    unfolding observed_lines_def StdoutData stdout_chunks_snoc
    by (simp add: frame_def Let_def responseData_run butlast_split_on_char_append[symmetric])
qed (simp_all add: observed_lines_def stdout_chunks_snoc)

subsection \<open>The handshake\<close>

lemma on_line_handshake:
  "stdin_written (fst (on_line P q s l)) =
     stdin_written s @
     (if is_init_result P l \<and> \<not> isInitialized s
      then [InitializedNotification, SearchRequest q] else [])
   \<and> isInitialized (fst (on_line P q s l)) = (isInitialized s \<or> is_init_result P l)"
  by (auto simp add: on_line_def is_init_result_def Let_def kill_def clearTimeout_def resolve_def
      reject_def parseMCPResponse_def split: option.splits)

lemma on_line_handshake_ok:
  "handshake_ok q base s \<Longrightarrow> handshake_ok q base (fst (on_line P q s l))"
  using on_line_handshake[of P q s l] by (auto simp: handshake_ok_def)

lemma on_lines_handshake_ok:
  "handshake_ok q base s \<Longrightarrow> handshake_ok q base (on_lines P q s ls)"
proof (induction ls arbitrary: s)
  case Nil
  then show ?case by simp
next
  case (Cons l ls)
  obtain s' f where sf: "on_line P q s l = (s', f)" by (cases "on_line P q s l")
  have "handshake_ok q base s'" using on_line_handshake_ok[OF Cons.prems, of P l] sf by simp
  then show ?case using sf Cons.IH[of s'] by (cases f) simp_all
qed


lemma step_handshake_ok: "handshake_ok q base s \<Longrightarrow> handshake_ok q base (step P q s e)"
proof (cases e)
  case (StdoutData c)
  assume h: "handshake_ok q base s"
  have "handshake_ok q base (s\<lparr>responseData := snd (frame (responseData s) c)\<rparr>)"
    using h by (simp add: handshake_ok_def)
  then show ?thesis
    using StdoutData by (simp add: on_stdout_def case_prod_beta on_lines_handshake_ok)
qed (auto simp: handshake_ok_def on_stderr_def on_error_def on_close_def on_timeout_def
       clearTimeout_def reject_def resolve_def kill_def parseMCPResponse_def Let_def)

lemma run_handshake_ok: "handshake_ok q (stdin_written (spawn w)) (run P q evs (spawn w))"
proof (induction evs rule: rev_induct)
  case Nil
  show ?case
    by (cases w)
       (simp_all add: run_Nil handshake_ok_def spawn_def Let_def reject_def clearTimeout_def)
next
  case (snoc e evs)
  then show ?case by (simp add: run_snoc step_handshake_ok del: step.simps)
qed



subsection \<open>The timer\<close>

lemma on_line_timer_inv: "timer_inv s \<Longrightarrow> timer_inv (fst (on_line P q s l))"
  by (auto simp add: timer_inv_def on_line_def Let_def kill_def clearTimeout_def resolve_def
      reject_def parseMCPResponse_def split: option.splits)

lemma on_lines_timer_inv: "timer_inv s \<Longrightarrow> timer_inv (on_lines P q s ls)"
proof (induction ls arbitrary: s)
  case Nil
  then show ?case by simp
next
  case (Cons l ls)
  obtain s' f where sf: "on_line P q s l = (s', f)" by (cases "on_line P q s l")
  have "timer_inv s'" using on_line_timer_inv[OF Cons.prems, of P q l] sf by simp
  then show ?case using sf Cons.IH[of s'] by (cases f) simp_all
qed

lemma step_timer_inv: "timer_inv s \<Longrightarrow> timer_inv (step P q s e)"
proof (cases e)
  case (StdoutData c)
  assume h: "timer_inv s"
  have "timer_inv (s\<lparr>responseData := snd (frame (responseData s) c)\<rparr>)"
    using h by (simp add: timer_inv_def)
  then show ?thesis
    using StdoutData by (simp add: on_stdout_def case_prod_beta on_lines_timer_inv)
qed (auto simp: timer_inv_def on_stderr_def on_error_def on_close_def on_timeout_def
       clearTimeout_def reject_def resolve_def kill_def parseMCPResponse_def Let_def)

lemma run_timer_inv: "timer_inv (run P q evs (spawn w))"
proof (induction evs rule: rev_induct)
  case Nil
  show ?case
    by (cases w) (simp_all add: run_Nil timer_inv_def spawn_def Let_def reject_def clearTimeout_def)
next
  case (snoc e evs)
  then show ?case by (simp add: run_snoc step_timer_inv del: step.simps)
qed

lemma on_line_quiet:
  "\<not> is_response P l \<Longrightarrow>
     snd (on_line P q s l) = Continue \<and> kills (fst (on_line P q s l)) = kills s
     \<and> settlements (fst (on_line P q s l)) = settlements s
     \<and> timer_pending (fst (on_line P q s l)) = timer_pending s"
  by (auto simp add: is_response_def on_line_def Let_def split: option.splits)

lemma on_lines_quiet:
  "list_all (\<lambda>l. \<not> is_response P l) ls \<Longrightarrow>
     kills (on_lines P q s ls) = kills s \<and> settlements (on_lines P q s ls) = settlements s
     \<and> timer_pending (on_lines P q s ls) = timer_pending s"
proof (induction ls arbitrary: s)
  case Nil
  show ?case by simp
next
  case (Cons l ls)
  obtain s' f where sf: "on_line P q s l = (s', f)" by (cases "on_line P q s l")
  have l: "\<not> is_response P l" and ls: "list_all (\<lambda>l. \<not> is_response P l) ls"
    using Cons.prems by simp_all
  have f: "f = Continue" and s': "kills s' = kills s" "settlements s' = settlements s"
      "timer_pending s' = timer_pending s"
    using on_line_quiet[OF l, of q s] sf by simp_all
  show ?case using sf f s' Cons.IH[OF ls, of s'] by simp
qed

lemma step_timed_out:
  assumes "timed_out s"
    and "list_all (\<lambda>l. \<not> is_response P l)
           (case e of StdoutData c \<Rightarrow> fst (frame (responseData s) c) | _ \<Rightarrow> [])"
  shows "timed_out (step P q s e)"
proof (cases e)
  case (StdoutData c)
  let ?s = "s\<lparr>responseData := snd (frame (responseData s) c)\<rparr>"
  have "list_all (\<lambda>l. \<not> is_response P l) (fst (frame (responseData s) c))"
    using assms(2) StdoutData by simp
  from on_lines_quiet[OF this, of q ?s] show ?thesis
    using assms(1) StdoutData by (simp add: timed_out_def outcome_def on_stdout_def case_prod_beta)
qed (insert assms(1), auto simp: timed_out_def outcome_def on_stderr_def on_error_def
       on_close_def on_timeout_def clearTimeout_def reject_def resolve_def kill_def
       parseMCPResponse_def Let_def split: list.splits)

lemma unsettled_no_response:
  "settlements (run P q evs (spawn w)) = [] \<Longrightarrow> \<not> hasReceivedResponse (run P q evs (spawn w))"
  using run_timer_inv[of P q evs w] by (auto simp: timer_inv_def)

lemma timeout_fires:
  assumes "timer_pending (run P q evs (spawn w))"
  shows "timed_out (run P q (evs @ [TimerFires]) (spawn w))"
    and "settlements (run P q (evs @ [TimerFires]) (spawn w)) = [Rejected TimedOut]"
proof -
  have "timer_inv (run P q evs (spawn w))" by (rule run_timer_inv)
  then have p: "settlements (run P q evs (spawn w)) = []" "kills (run P q evs (spawn w)) = 0"
      "\<not> hasReceivedResponse (run P q evs (spawn w))"
    using assms by (auto simp: timer_inv_def)
  show "timed_out (run P q (evs @ [TimerFires]) (spawn w))"
    using p assms by (simp add: run_snoc on_timeout_def timed_out_def outcome_def reject_def kill_def)
  show "settlements (run P q (evs @ [TimerFires]) (spawn w)) = [Rejected TimedOut]"
    using p assms by (simp add: run_snoc on_timeout_def reject_def kill_def)
qed

lemma timed_out_stays:
  assumes "timer_pending (run P q evs (spawn w))"
    and "list_all (\<lambda>l. \<not> is_response P l) (observed_lines (evs @ TimerFires # later))"
  shows "timed_out (run P q (evs @ TimerFires # later) (spawn w))"
  using assms(2)
proof (induction later rule: rev_induct)
  case Nil
  show ?case using timeout_fires(1)[OF assms(1)] by simp
next
  case (snoc e later)
  let ?evs = "evs @ TimerFires # later"
  have eq: "evs @ TimerFires # later @ [e] = ?evs @ [e]" by simp
  have quiet: "list_all (\<lambda>l. \<not> is_response P l) (observed_lines ?evs)"
    and quiet_e: "list_all (\<lambda>l. \<not> is_response P l)
        (case e of
           StdoutData c \<Rightarrow> fst (frame (responseData (run P q ?evs (spawn w))) c)
         | _ \<Rightarrow> [])"
    using snoc.prems unfolding eq observed_lines_snoc[of ?evs e P q w] by simp_all
  have "timed_out (run P q ?evs (spawn w))" using snoc.IH[OF quiet] .
  from step_timed_out[OF this quiet_e, of q] show ?case
    using run_snoc[of P q ?evs e "spawn w"] by simp
qed

text \<open>
  After a tool-call response has been received, the \<open>close\<close> handler and the timer callback
  neither settle nor kill.
\<close>

lemma response_received_guards:
  "hasReceivedResponse s \<Longrightarrow>
     kills (on_close P code s) = kills s \<and> settlements (on_close P code s) = settlements s
     \<and> kills (on_timeout s) = kills s \<and> settlements (on_timeout s) = settlements s"
  by (simp add: on_close_def on_timeout_def clearTimeout_def Let_def)

text \<open>
  When the timer fires while it is armed, nothing has settled and nothing has been killed
  before; the callback rejects with the timeout and kills once, and this holds on as long
  as no response line arrives.
\<close>

lemma timer_fires_while_pending:
  assumes "timer_pending (run P q evs (spawn w))"
    and "list_all (\<lambda>l. \<not> is_response P l) (observed_lines (evs @ TimerFires # later))"
  shows "settlements (run P q (evs @ [TimerFires]) (spawn w)) = [Rejected TimedOut]
         \<and> outcome (run P q (evs @ TimerFires # later) (spawn w)) = Some (Rejected TimedOut)
         \<and> kills (run P q (evs @ TimerFires # later) (spawn w)) = 1"
  using timeout_fires(2)[OF assms(1)] timed_out_stays[OF assms(1) assms(2)]
  by (simp add: timed_out_def)

text \<open>
  An error response whose message has no conversion to a string: the timer is cleared and
  the process killed, nothing is settled and the loop goes on.
\<close>

lemma opaque_error_settles_nothing:
  "on_line opaque_error_parse ''crash'' (spawn None) opaque_error_line
     = (kill (clearTimeout (spawn None)), Continue)
   \<and> settlements (run opaque_error_parse ''crash''
        [StdoutData (opaque_error_line @ newline)] (spawn None)) = []
   \<and> kills (run opaque_error_parse ''crash''
        [StdoutData (opaque_error_line @ newline)] (spawn None)) = 1
   \<and> \<not> timer_pending (run opaque_error_parse ''crash''
        [StdoutData (opaque_error_line @ newline)] (spawn None))"
  by code_simp

section \<open>The claims\<close>

text \<open>
  Claim C1, at an input where the code breaks it. The timer fires on a session whose server
  has answered the initialize request only: the process is killed and the promise rejected.
  A tool-call response that arrives after that is handled like a first one, with a second
  \<open>kill\<close> and a call of \<open>resolve\<close>; and when instead the killed process exits, the \<open>close\<close>
  handler calls \<open>reject\<close> a second time, because the timer callback leaves
  \<open>hasReceivedResponse\<close> unset and the stdout handler never reads it.
\<close>

theorem settled_session_settles_again:
  "kills (run transcript_parse ''crash''
      [StdoutData (initialize_response_line @ newline), TimerFires,
       StdoutData (search_response_line @ newline)] (spawn None)) = 2
   \<and> settlements (run transcript_parse ''crash''
      [StdoutData (initialize_response_line @ newline), TimerFires,
       StdoutData (search_response_line @ newline)] (spawn None))
     = [Rejected TimedOut, Resolved [crash_record]]
   \<and> settlements (run transcript_parse ''crash''
      [StdoutData (initialize_response_line @ newline), TimerFires, Close None] (spawn None))
     = [Rejected TimedOut, Rejected (ProcessExited None [])]"
  by code_simp

text \<open>
  Claim C2, as the code has it. When the process exits before the outcome has settled: with
  the exit code 0 the handler parses the buffered rest of the output with parseMCPResponse
  and resolves with its records (the empty list when no line yields any); with any other
  exit code, or none, it rejects with the process failure that carries the exit code and the
  stderr text captured so far, and does not parse the buffer. It does not kill.
\<close>

theorem exit_before_settled:
  assumes "settlements (run JSON_parse query events (spawn write_error)) = []"
  shows "settlements (run JSON_parse query (events @ [Close code]) (spawn write_error))
           = (if code = Some 0 then
                [Resolved (response_lines JSON_parse (filter (\<lambda>line. trim line \<noteq> [])
                   (split_on newline
                      (last (split_on newline (concat (stdout_chunks events)))))))]
              else [Rejected (ProcessExited code (concat (stderr_chunks events)))])
         \<and> kills (run JSON_parse query (events @ [Close code]) (spawn write_error))
           = kills (run JSON_parse query events (spawn write_error))"
  using assms unsettled_no_response[OF assms]
  by (simp add: run_snoc on_close_def Let_def clearTimeout_def reject_def resolve_def
      parseMCPResponse_def responseData_run errorData_run)

theorem exit_before_settled_witness:
  "settlements (run transcript_parse ''crash''
      [StdoutData (initialize_response_line @ newline), StderrData ''index is locked'']
      (spawn None)) = []
   \<and> settlements (run transcript_parse ''crash''
        ([StdoutData (initialize_response_line @ newline), StderrData ''index is locked'']
           @ [Close (Some 1)]) (spawn None))
       = [Rejected (ProcessExited (Some 1) ''index is locked'')]
   \<and> settlements (run transcript_parse ''crash''
        [StdoutData (initialize_response_line @ newline), StdoutData search_response_line]
        (spawn None)) = []
   \<and> settlements (run transcript_parse ''crash''
        ([StdoutData (initialize_response_line @ newline), StdoutData search_response_line]
           @ [Close (Some 0)]) (spawn None))
       = [Resolved [crash_record]]"
proof -
  let ?failing = "[StdoutData (initialize_response_line @ newline), StderrData ''index is locked'']"
  let ?clean = "[StdoutData (initialize_response_line @ newline), StdoutData search_response_line]"
  have h1: "settlements (run transcript_parse ''crash'' ?failing (spawn None)) = []"
    by code_simp
  have h2: "settlements (run transcript_parse ''crash'' ?clean (spawn None)) = []"
    by code_simp
  have e1: "concat (stderr_chunks ?failing) = ''index is locked''"
    by code_simp
  have e2: "response_lines transcript_parse (filter (\<lambda>line. trim line \<noteq> [])
      (split_on newline (last (split_on newline (concat (stdout_chunks ?clean))))))
      = [crash_record]"
    by code_simp
  have "settlements (run transcript_parse ''crash'' (?failing @ [Close (Some 1)]) (spawn None))
      = [Rejected (ProcessExited (Some 1) ''index is locked'')]"
    using exit_before_settled[OF h1, of "Some 1"] by (simp only: e1) simp
  moreover have "settlements (run transcript_parse ''crash'' (?clean @ [Close (Some 0)]) (spawn None))
      = [Resolved [crash_record]]"
    using exit_before_settled[OF h2, of "Some 0"] by (simp only: e2) simp
  ultimately show ?thesis using h1 h2 by blast
qed

text \<open>
  Claim C2, as stated, fails: the process exits with code 1 while the buffer holds a complete
  response that lacks its newline. The buffer parses to a record, yet the handler rejects
  with the process failure and never parses it.
\<close>

theorem nonzero_exit_skips_parse:
  "settlements (run transcript_parse ''crash''
      [StdoutData (initialize_response_line @ newline), StdoutData search_response_line,
       Close (Some 1)] (spawn None))
     = [Rejected (ProcessExited (Some 1) [])]
   \<and> responseData (run transcript_parse ''crash''
      [StdoutData (initialize_response_line @ newline), StdoutData search_response_line]
      (spawn None)) = search_response_line
   \<and> parseMCPResponse transcript_parse search_response_line = Inr [crash_record]"
  by code_simp

text \<open>
  Claim C3, as the code has it. A line that decodes to a message with \<open>id === 2\<close> whose
  \<open>result.content[0].text\<close> is a string settles the session by \<open>resolve\<close>, with the records
  parseSearchResults accepts in that text: the handler marks the response as received,
  clears the timer, kills the process and resolves; it does not reject.
\<close>

theorem tool_response_resolves:
  assumes "JSON_parse line = Some message" and "trim line \<noteq> []" and "CHR 0x0A \<notin> set line"
    and "member ''id'' message = JNum 2"
    and "member ''text'' (index0 (member ''content'' (member ''result'' message))) = JStr c"
  shows "on_line JSON_parse query s line =
           (resolve (parseSearchResults c)
              (kill (clearTimeout (s\<lparr>hasReceivedResponse := True\<rparr>))), Return)"
proof -
  let ?result = "member ''result'' message"
  let ?content = "member ''content'' ?result"
  have c0: "\<not> nullish (index0 ?content)" using assms(5) by (cases "index0 ?content") auto
  then have content: "truthy ?content"
    using assms(5) by (cases ?content rule: index0.cases) auto
  then have result: "truthy ?result" by (cases ?result) auto
  have msg: "\<not> nullish message" using assms(4) by (cases message) auto
  have "try_line JSON_parse line = Returns (parseSearchResults c)"
    using assms(1,5) msg result content c0 by (auto simp: try_line_def Let_def)
  then have "parseMCPResponse JSON_parse line = Inr (parseSearchResults c)"
    using assms(2,3) by (simp add: parseMCPResponse_def split_on_char_none)
  then show ?thesis
    using assms(1,2,4) msg result by (simp add: on_line_def Let_def)
qed

theorem tool_response_resolves_witness:
  "transcript_parse search_response_line = Some search_response
   \<and> trim search_response_line \<noteq> []
   \<and> CHR 0x0A \<notin> set search_response_line
   \<and> member ''id'' search_response = JNum 2
   \<and> member ''text'' (index0 (member ''content'' (member ''result'' search_response)))
       = JStr (''## Fix crash'' @ newline @ ''- URL: https://github.com/org/repo/issues/1'')
   \<and> on_line transcript_parse ''crash'' (spawn None) search_response_line
       = (resolve
            (parseSearchResults
               (''## Fix crash'' @ newline @ ''- URL: https://github.com/org/repo/issues/1''))
            (kill (clearTimeout ((spawn None)\<lparr>hasReceivedResponse := True\<rparr>))), Return)"
proof -
  have h1: "transcript_parse search_response_line = Some search_response" by code_simp
  have h2: "trim search_response_line \<noteq> []" by code_simp
  have h3: "CHR 0x0A \<notin> set search_response_line" by code_simp
  have h4: "member ''id'' search_response = JNum 2" by code_simp
  have h5: "member ''text'' (index0 (member ''content'' (member ''result'' search_response)))
      = JStr (''## Fix crash'' @ newline @ ''- URL: https://github.com/org/repo/issues/1'')"
    by code_simp
  from tool_response_resolves[where JSON_parse = transcript_parse
      and line = search_response_line and message = search_response
      and query = "''crash''" and s = "spawn None", OF h1 h2 h3 h4 h5] h1 h2 h3 h4 h5
  show ?thesis by blast
qed

text \<open>
  Claim C3, as stated, fails: the text of this tool-call response is a plain sentence with no
  heading line, so it is not in the record-block format; the promise is resolved with the
  empty list, not rejected.
\<close>

theorem plain_text_response_resolves:
  "callMCPSearch transcript_parse ''crash'' None
      [StdoutData (initialize_response_line @ newline),
       StdoutData (plain_response_line @ newline)]
     = Some (Resolved [])
   \<and> match_title ''search failed: index is locked'' = None"
  by code_simp



text \<open>
  Claim C5. Framing is lossless and does not depend on how the stream is cut into chunks: the
  lines the framing step hands on, followed by the buffer it retains, are the pieces of the
  concatenation of all chunks split on the newline; and the buffer a session holds after
  any events is the one framing its stdout chunks retains.
\<close>

theorem framing_lossless:
  "fst (frame_all [] chunks) @ [snd (frame_all [] chunks)] = split_on newline (concat chunks)
   \<and> fst (frame_all [] chunks) = butlast (split_on newline (concat chunks))
   \<and> snd (frame_all [] chunks) = last (split_on newline (concat chunks))
   \<and> responseData (run JSON_parse query events (spawn write_error))
       = snd (frame_all [] (stdout_chunks events))"
proof -
  have eq: "fst (frame_all [] cs) @ [snd (frame_all [] cs)] = split_on newline (concat cs)"
    for cs
    using frame_all_split[of "[]" cs] by simp
  have "fst (frame_all [] chunks)
      = butlast (fst (frame_all [] chunks) @ [snd (frame_all [] chunks)])"
    by simp
  also have "\<dots> = butlast (split_on newline (concat chunks))"
    by (simp only: eq)
  finally have b: "fst (frame_all [] chunks) = butlast (split_on newline (concat chunks))" .
  have "snd (frame_all [] cs) = last (fst (frame_all [] cs) @ [snd (frame_all [] cs)])" for cs
    by simp
  then have l: "snd (frame_all [] cs) = last (split_on newline (concat cs))" for cs
    by (simp only: eq)
  have r: "responseData (run JSON_parse query events (spawn write_error))
      = snd (frame_all [] (stdout_chunks events))"
    by (simp only: responseData_run l)
  from eq[of chunks] b l[of chunks] r show ?thesis by blast
qed



text \<open>
  Claim C7, as the code has it. parseSearchResults emits the records of the first 20 blocks
  that yield one, in their order; a block yields a record if and only if its heading line
  yields a title and one of its later lines yields a URL, and then the record has the value
  of the last line carrying each label and the defaults (empty, \<open>issue\<close>, \<open>open\<close>) for the
  labels no line carries; lines that match no field pattern change nothing. A heading
  that yields the title \<open>t\<close> is \<open>##\<close>, white space and \<open>t\<close>, and a line that yields the value
  \<open>v\<close> for a label is a hyphen, white space, the label, white space and \<open>v\<close>, with \<open>t\<close> and
  \<open>v\<close> non-empty and free of line terminators; every line of these shapes whose \<open>t\<close> or \<open>v\<close>
  does not start with white space yields it. On the payload of the specification's
  example this gives its two records, the second with three defaults.
\<close>

theorem record_acceptance_and_defaults:
  "parseSearchResults content = take 20 (List.map_filter block_record (sections content))
   \<and> parse_section block = block_record block
   \<and> field_lines r (filter is_field_line lines) = field_lines r lines
   \<and> (match_title heading = Some t
        \<longrightarrow> (\<exists>ws. heading = ''##'' @ ws @ t \<and> list_all is_ws ws \<and> t \<noteq> []
              \<and> list_all (\<lambda>c. \<not> is_line_terminator c) t))
   \<and> (list_all is_ws wsa \<and> ta \<noteq> [] \<and> \<not> is_ws (hd ta)
          \<and> list_all (\<lambda>c. \<not> is_line_terminator c) ta
        \<longrightarrow> match_title (''##'' @ wsa @ ta) = Some ta)
   \<and> (match_field label line = Some v
        \<longrightarrow> (\<exists>ws ws'. line = CHR ''-'' # ws @ label @ ws' @ v \<and> list_all is_ws ws
              \<and> list_all is_ws ws' \<and> v \<noteq> []
              \<and> list_all (\<lambda>c. \<not> is_line_terminator c) v))
   \<and> (list_all is_ws wsb \<and> labelb \<noteq> [] \<and> \<not> is_ws (hd labelb) \<and> list_all is_ws wsc
          \<and> vb \<noteq> [] \<and> \<not> is_ws (hd vb) \<and> list_all (\<lambda>c. \<not> is_line_terminator c) vb
        \<longrightarrow> match_field labelb (CHR ''-'' # wsb @ labelb @ wsc @ vb) = Some vb)
   \<and> parseSearchResults example_payload =
       [\<lparr>title = ''Fix crash on startup'', url = ''https://github.com/org/repo/issues/1'',
         repository = ''org/repo'', type = ''issue'', state = ''open'', author = ''alice'',
         created_at = ''2024-01-01''\<rparr>,
        \<lparr>title = ''Add dark mode'', url = ''https://github.com/org/repo/pull/2'',
         repository = [], type = ''pull_request'', state = ''merged'', author = [],
         created_at = []\<rparr>]"
proof -
  have "List.map_filter parse_section (sections content)
      = List.map_filter block_record (sections content)"
    by (simp add: List.map_filter_def parse_section_eq)
  then have "parseSearchResults content
      = take 20 (List.map_filter block_record (sections content))"
    by (simp add: parseSearchResults_def collect_results_map_filter)
  then show ?thesis
    using match_title_sound[of heading t] match_title_complete[of wsa ta]
      match_field_sound[of label line v] match_field_complete[of wsb labelb wsc vb]
      example_payload_records
    by (simp add: parse_section_eq field_lines_filter)
qed

theorem record_acceptance_and_defaults_witness:
  "match_title ''## Fix crash'' = Some ''Fix crash''
   \<and> (\<exists>ws. ''## Fix crash'' = ''##'' @ ws @ ''Fix crash'' \<and> list_all is_ws ws
          \<and> ''Fix crash'' \<noteq> [] \<and> list_all (\<lambda>c. \<not> is_line_terminator c) ''Fix crash'')
   \<and> list_all is_ws ''  '' \<and> ''Add dark mode'' \<noteq> [] \<and> \<not> is_ws (hd ''Add dark mode'')
   \<and> list_all (\<lambda>c. \<not> is_line_terminator c) ''Add dark mode''
   \<and> match_title (''##'' @ ''  '' @ ''Add dark mode'') = Some ''Add dark mode''
   \<and> match_field ''URL:'' ''- URL: https://github.com/org/repo/pull/2''
       = Some ''https://github.com/org/repo/pull/2''
   \<and> (\<exists>ws ws'. ''- URL: https://github.com/org/repo/pull/2''
            = CHR ''-'' # ws @ ''URL:'' @ ws' @ ''https://github.com/org/repo/pull/2''
          \<and> list_all is_ws ws \<and> list_all is_ws ws'
          \<and> ''https://github.com/org/repo/pull/2'' \<noteq> []
          \<and> list_all (\<lambda>c. \<not> is_line_terminator c) ''https://github.com/org/repo/pull/2'')
   \<and> list_all is_ws '' '' \<and> ''State:'' \<noteq> [] \<and> \<not> is_ws (hd ''State:'')
   \<and> list_all is_ws [] \<and> ''merged'' \<noteq> [] \<and> \<not> is_ws (hd ''merged'')
   \<and> list_all (\<lambda>c. \<not> is_line_terminator c) ''merged''
   \<and> match_field ''State:'' (CHR ''-'' # '' '' @ ''State:'' @ [] @ ''merged'') = Some ''merged''"
proof -
  have a1: "match_title ''## Fix crash'' = Some ''Fix crash''" by code_simp
  have a2: "list_all is_ws ''  '' \<and> ''Add dark mode'' \<noteq> [] \<and> \<not> is_ws (hd ''Add dark mode'')
      \<and> list_all (\<lambda>c. \<not> is_line_terminator c) ''Add dark mode''"
    by code_simp
  have a3: "match_field ''URL:'' ''- URL: https://github.com/org/repo/pull/2''
      = Some ''https://github.com/org/repo/pull/2''"
    by code_simp
  have a4: "list_all is_ws '' '' \<and> ''State:'' \<noteq> [] \<and> \<not> is_ws (hd ''State:'')
      \<and> list_all is_ws [] \<and> ''merged'' \<noteq> [] \<and> \<not> is_ws (hd ''merged'')
      \<and> list_all (\<lambda>c. \<not> is_line_terminator c) ''merged''"
    by code_simp
  from record_acceptance_and_defaults[where heading = "''## Fix crash''" and t = "''Fix crash''"
      and wsa = "''  ''" and ta = "''Add dark mode''"
      and label = "''URL:''" and line = "''- URL: https://github.com/org/repo/pull/2''"
      and v = "''https://github.com/org/repo/pull/2''"
      and wsb = "'' ''" and labelb = "''State:''" and wsc = "[]" and vb = "''merged''"]
    a1 a2 a3 a4
  show ?thesis by blast
qed

text \<open>
  Claim C7, as stated, fails: all 21 blocks of this payload yield a title and a URL, and the
  record of the last one is not emitted.
\<close>

theorem twenty_first_block_dropped:
  "block_record (last (sections cap_payload)) = Some last_record
   \<and> length (List.map_filter block_record (sections cap_payload)) = 21
   \<and> length (parseSearchResults cap_payload) = 20
   \<and> last_record \<notin> set (parseSearchResults cap_payload)"
  by code_simp

text \<open>
  Claim C8. The output is a function of the payload alone; it is the first 20 (at most) of the
  records of the accepted sections, in the order of the sections, which is their order in
  the payload (the pieces joined by the separator are the payload).
\<close>

theorem parse_ordered_and_bounded:
  "parseSearchResults content
     = take 20 (List.map_filter parse_section
         (filter (\<lambda>s. trim s \<noteq> []) (split_on ''---'' content)))
   \<and> join ''---'' (split_on ''---'' content) = content
   \<and> length (parseSearchResults content) \<le> 20"
  by (simp add: parseSearchResults_def sections_def collect_results_map_filter join_split_on)

text \<open>
  Claim C9, at an input where the code breaks it. Nothing has settled the session when the
  timer fires: the callback rejects with the timeout, which stays the outcome, and kills
  the process. The tool-call response arrives after that and the stdout handler, which
  does not read \<open>hasReceivedResponse\<close> and finds it unset anyway, kills the process a
  second time.
\<close>

theorem late_response_kills_twice:
  "settlements (run transcript_parse ''crash''
      [StdoutData (initialize_response_line @ newline)] (spawn None)) = []
   \<and> timer_pending (run transcript_parse ''crash''
      [StdoutData (initialize_response_line @ newline)] (spawn None))
   \<and> settlements (run transcript_parse ''crash''
      [StdoutData (initialize_response_line @ newline), TimerFires] (spawn None))
     = [Rejected TimedOut]
   \<and> kills (run transcript_parse ''crash''
      [StdoutData (initialize_response_line @ newline), TimerFires] (spawn None)) = 1
   \<and> callMCPSearch transcript_parse ''crash'' None
      [StdoutData (initialize_response_line @ newline), TimerFires,
       StdoutData (search_response_line @ newline), Close None]
     = Some (Rejected TimedOut)
   \<and> kills (run transcript_parse ''crash''
      [StdoutData (initialize_response_line @ newline), TimerFires,
       StdoutData (search_response_line @ newline), Close None] (spawn None)) = 2"
  by code_simp

text \<open>
  Claim C10. In every session, whatever the process sends and however often it sends a result
  for id 1, the initialized notification is written at most once and a search request is
  written at most once.
\<close>

theorem handshake_at_most_once:
  "length (filter (\<lambda>m. m = InitializedNotification)
      (stdin_written (run JSON_parse query events (spawn write_error)))) \<le> 1
   \<and> length (filter (\<lambda>m. case m of SearchRequest text \<Rightarrow> True | _ \<Rightarrow> False)
      (stdin_written (run JSON_parse query events (spawn write_error)))) \<le> 1"
  using run_handshake_ok[of query write_error JSON_parse events]
  by (cases write_error) (simp_all add: handshake_ok_def spawn_stdin)

lemma second_initialize_result_ignored:
  "stdin_written (run transcript_parse ''crash''
      [StdoutData (initialize_response_line @ newline @ initialize_response_line @ newline),
       StdoutData (initialize_response_line @ newline)] (spawn None))
     = [InitializeRequest, InitializedNotification, SearchRequest ''crash'']"
  by code_simp

end
